theory Spec2Isabelle
  imports Main
begin

section \<open>Upload page: file validation\<close>

text \<open>
  A browser \<open>File\<close> as far as the upload page reads it: its name and its byte size (\<open>size\<close> in the source).
  Strings are lists of characters; a character stands for a code unit below 256.
\<close>

record File =
  name :: string
  fsize :: nat

definition MAX_FILE_SIZE :: nat where
  "MAX_FILE_SIZE = 50 * 1024 * 1024"

definition ALLOWED_TYPES :: "string list" where
  "ALLOWED_TYPES = [''.pdf'', ''.docx'', ''.md'', ''.html'', ''.txt'']"

text \<open>
  \<open>String.prototype.split\<close> with a one-character separator: the pieces between the
  separators, in order; a string without the separator is its own single piece, and the
  result is never empty.
\<close>

fun split :: "char \<Rightarrow> string \<Rightarrow> string list" where
  "split c [] = [[]]"
| "split c (x # xs) =
     (if x = c then [] # split c xs
      else (case split c xs of
              [] \<Rightarrow> [[x]]
            | s # ss \<Rightarrow> (x # s) # ss))"

text \<open>
  \<open>Array.prototype.pop\<close>, read for its result: the last element, \<open>undefined\<close> on an
  empty array.
\<close>

definition pop :: "'a list \<Rightarrow> 'a option" where
  "pop xs = (if xs = [] then None else Some (last xs))"

text \<open>
  \<open>String.prototype.toLowerCase\<close> on code units below 256: the letters A to Z and the
  capital letters of the Latin-1 block (192 to 222 without the multiplication sign 215)
  move up by 32, every other character stays.
\<close>

definition toLowerCase_char :: "char \<Rightarrow> char" where
  "toLowerCase_char c =
     (let n = (of_char c :: nat)
      in if (65 \<le> n \<and> n \<le> 90) \<or> (192 \<le> n \<and> n \<le> 222 \<and> n \<noteq> 215)
         then char_of (n + 32) else c)"

definition toLowerCase :: "string \<Rightarrow> string" where
  "toLowerCase s = map toLowerCase_char s"

text \<open>\<open>Array.prototype.join\<close> on strings.\<close>

fun join :: "string \<Rightarrow> string list \<Rightarrow> string" where
  "join sep [] = []"
| "join sep [s] = s"
| "join sep (s # t # ss) = s @ sep @ join sep (t # ss)"

text \<open>
  \<open>'.' + file.name.split('.').pop()?.toLowerCase()\<close>: the optional chain yields
  \<open>undefined\<close> when \<open>pop\<close> does, and string concatenation prints that as the word
  \<open>undefined\<close>.
\<close>

definition extension :: "File \<Rightarrow> string" where
  "extension file =
     ''.'' @ (case pop (split CHR ''.'' (name file)) of
                None \<Rightarrow> ''undefined''
              | Some s \<Rightarrow> toLowerCase s)"

text \<open>
  \<open>validateFile\<close>: \<open>None\<close> is the source's \<open>null\<close> (accepted), \<open>Some\<close> carries the
  rejection text.
\<close>

definition validateFile :: "File \<Rightarrow> string option" where
  "validateFile file =
     (if fsize file > MAX_FILE_SIZE then Some ''File size exceeds 50MB limit.''
      else if \<not> List.member ALLOWED_TYPES (extension file)
      then Some (''Invalid file type. Allowed types: '' @ join '', '' ALLOWED_TYPES)
      else None)"

text \<open>
  The specification's wording of the extension, for comparison with the code: the part of
  the name after its last dot, the whole name when it has no dot.
\<close>

definition spec_extension :: "string \<Rightarrow> string" where
  "spec_extension s = rev (takeWhile (\<lambda>c. c \<noteq> CHR ''.'') (rev s))"

definition spec_allowed :: "string set" where
  "spec_allowed = {''pdf'', ''docx'', ''md'', ''html'', ''txt''}"

section \<open>Upload page: state and remote calls\<close>

text \<open>A document as \<open>GET /documents\<close> lists it (\<open>doc_name\<close> is \<open>name\<close> in the source).\<close>

record Document =
  doc_name :: string
  path :: string
  chunks :: int
  previews :: "string list"

text \<open>The component state of the upload page, one field for each \<open>useState\<close>.\<close>

record UploadState =
  files :: "File list"
  uploading :: bool
  message :: string
  uploadProgress :: "string \<rightharpoonup> nat"
  chunksProcessed :: "string \<rightharpoonup> int"
  documents :: "Document list"
  loading :: bool

text \<open>The state the page starts in: the initial values of its \<open>useState\<close> calls.\<close>

definition initialUploadState :: UploadState where
  "initialUploadState =
     \<lparr>files = [], uploading = False, message = [], uploadProgress = Map.empty,
      chunksProcessed = Map.empty, documents = [], loading = True\<rparr>"




text \<open>JavaScript truthiness of a string that may be missing: present and not empty.\<close>

definition truthy :: "string option \<Rightarrow> bool" where
  "truthy v = (case v of None \<Rightarrow> False | Some t \<Rightarrow> t \<noteq> [])"


text \<open>
  \<open>handleFileChange\<close> on the files of the input element: every file is validated on its
  own; with errors and no valid file the handler returns after showing the errors, otherwise
  the valid files become the selection and the chunk counts are reset.
\<close>

definition file_error :: "File \<Rightarrow> string option" where
  "file_error file =
     (if truthy (validateFile file)
      then Some (name file @ '': '' @ the (validateFile file))
      else None)"

definition handleFileChange :: "File list \<Rightarrow> UploadState \<Rightarrow> UploadState" where
  "handleFileChange selectedFiles s =
     (let validFiles = filter (\<lambda>f. \<not> truthy (validateFile f)) selectedFiles;
          errors = List.map_filter file_error selectedFiles
      in if errors \<noteq> [] \<and> validFiles = [] then s\<lparr>message := join [CHR 0x0A] errors\<rparr>
         else
           let s1 = (if errors \<noteq> [] then s\<lparr>message := join [CHR 0x0A] errors\<rparr> else s);
               s2 = s1\<lparr>files := validFiles\<rparr>;
               s3 = (if validFiles \<noteq> []
                     then s2\<lparr>message := (if errors \<noteq> []
                                          then ''Some files will be skipped due to errors.''
                                          else [])\<rparr>
                     else s2)
           in s3\<lparr>chunksProcessed := Map.empty\<rparr>)"

text \<open>
  What else the page can do while an upload is in flight; nothing on the page is disabled
  for the document list, and the file input stays enabled. A new selection
  (\<open>handleFileChange\<close>), and the pieces of \<open>loadDocuments\<close> and of the delete button: a
  load starts, a load ends with the list or with a failure, a delete is confirmed by the
  server (which starts a load) or fails. The strings are document names.
\<close>

datatype page_action =
    FilesSelected "File list"
  | DocumentsLoadStarted
  | DocumentsLoaded "Document list"
  | DocumentsLoadFailed
  | DocumentDeleted string
  | DocumentDeleteFailed string

fun page_act :: "page_action \<Rightarrow> UploadState \<Rightarrow> UploadState" where
  "page_act (FilesSelected selectedFiles) s = handleFileChange selectedFiles s"
| "page_act DocumentsLoadStarted s = s\<lparr>loading := True\<rparr>"
| "page_act (DocumentsLoaded docs) s = s\<lparr>documents := docs, loading := False\<rparr>"
| "page_act DocumentsLoadFailed s = s\<lparr>message := ''Failed to load documents'', loading := False\<rparr>"
| "page_act (DocumentDeleted n) s = s\<lparr>message := ''Successfully deleted '' @ n, loading := True\<rparr>"
| "page_act (DocumentDeleteFailed n) s = s\<lparr>message := ''Error deleting '' @ n\<rparr>"

text \<open>A transfer-progress event of the HTTP client: \<open>total\<close> may be missing.\<close>

record ProgressEvent =
  loaded :: nat
  total :: "nat option"

text \<open>
  What happens between the issue of an upload request and its settlement, in order:
  progress events of the transfer, and whatever else the user and the page do meanwhile.
\<close>

datatype flight_event = Progress ProgressEvent | Action page_action




text \<open>
  \<open>Math.round (a / b)\<close> for natural \<open>a\<close> and positive \<open>b\<close>: the nearest integer,
  halves upwards. The quotient is taken exactly here; the source takes it in double
  precision, which gives the same integer for byte counts of the size files have.
\<close>

definition Math_round_div :: "nat \<Rightarrow> nat \<Rightarrow> nat" where
  "Math_round_div a b = (2 * a + b) div (2 * b)"

text \<open>
  \<open>onUploadProgress\<close> of \<open>uploadDocument\<close>: the percentage handed to \<open>onProgress\<close>,
  \<open>None\<close> when the guard \<open>onProgress && progressEvent.total\<close> skips the event (a missing
  or zero total).
\<close>

definition onUploadProgress :: "ProgressEvent \<Rightarrow> nat option" where
  "onUploadProgress ev =
     (case total ev of
        None \<Rightarrow> None
      | Some t \<Rightarrow> if t = 0 then None else Some (Math_round_div (loaded ev * 100) t))"

text \<open>The percentages one call of \<open>uploadDocument\<close> hands to its callback, in arrival order.\<close>

definition uploadDocument_progress :: "ProgressEvent list \<Rightarrow> nat list" where
  "uploadDocument_progress evs = List.map_filter onUploadProgress evs"

text \<open>
  The progress callback that \<open>handleUpload\<close> passes for a file:
  \<open>setUploadProgress(prev => ({...prev, [file.name]: progress}))\<close>.
\<close>

definition onProgress :: "string \<Rightarrow> nat \<Rightarrow> UploadState \<Rightarrow> UploadState" where
  "onProgress file_name progress s =
     s\<lparr>uploadProgress := (uploadProgress s)(file_name \<mapsto> progress)\<rparr>"

text \<open>
  The states the page goes through while the callbacks of one file arrive: the state after
  each callback, in arrival order.
\<close>

fun progress_states :: "string \<Rightarrow> nat list \<Rightarrow> UploadState \<Rightarrow> UploadState list" where
  "progress_states file_name [] s = []"
| "progress_states file_name (p # ps) s =
     onProgress file_name p s # progress_states file_name ps (onProgress file_name p s)"

text \<open>
  The percentages shown for a file over a run of states (a state without an entry shows
  none).
\<close>

definition displayed :: "string \<Rightarrow> UploadState list \<Rightarrow> nat list" where
  "displayed file_name sts = List.map_filter (\<lambda>st. uploadProgress st file_name) sts"

text \<open>The effect of one thing that happens while the upload of the named file is in flight.\<close>

fun in_flight :: "string \<Rightarrow> flight_event \<Rightarrow> UploadState \<Rightarrow> UploadState" where
  "in_flight file_name (Progress ev) s =
     (case onUploadProgress ev of None \<Rightarrow> s | Some p \<Rightarrow> onProgress file_name p s)"
| "in_flight file_name (Action a) s = page_act a s"




section \<open>Upload page: describing a batch\<close>



















section \<open>JSON text\<close>

text \<open>
  The JavaScript values a transcript is made of: strings, arrays and objects (an object is
  its properties in insertion order), with \<open>null\<close> and the booleans. Numbers do not occur
  in a transcript and are outside this model.
\<close>

datatype json =
    JNull
  | JBool bool
  | JString string
  | JArray "json list"
  | JObject "(string \<times> json) list"

definition hex_digit :: "nat \<Rightarrow> char" where
  "hex_digit n = ''0123456789abcdef'' ! (n mod 16)"

text \<open>
  \<open>QuoteJSONString\<close> of the language standard on code units below 256: the quote, the
  backslash and the control characters are escaped, everything else is copied.
\<close>

definition quote_char :: "char \<Rightarrow> string" where
  "quote_char c =
     (if c = CHR 0x08 then [CHR 0x5C, CHR ''b'']
      else if c = CHR 0x09 then [CHR 0x5C, CHR ''t'']
      else if c = CHR 0x0A then [CHR 0x5C, CHR ''n'']
      else if c = CHR 0x0C then [CHR 0x5C, CHR ''f'']
      else if c = CHR 0x0D then [CHR 0x5C, CHR ''r'']
      else if c = CHR 0x22 then [CHR 0x5C, CHR 0x22]
      else if c = CHR 0x5C then [CHR 0x5C, CHR 0x5C]
      else if (of_char c :: nat) < 32
      then [CHR 0x5C, CHR ''u'', CHR ''0'', CHR ''0'',
            hex_digit ((of_char c :: nat) div 16), hex_digit (of_char c)]
      else [c])"

definition QuoteJSONString :: "string \<Rightarrow> string" where
  "QuoteJSONString s = [CHR 0x22] @ concat (map quote_char s) @ [CHR 0x22]"

text \<open>\<open>JSON.stringify\<close> with one argument: the compact text, no white space.\<close>

fun JSON_stringify :: "json \<Rightarrow> string"
  and stringify_elements :: "json list \<Rightarrow> string"
  and stringify_members :: "(string \<times> json) list \<Rightarrow> string" where
  "JSON_stringify JNull = ''null''"
| "JSON_stringify (JBool b) = (if b then ''true'' else ''false'')"
| "JSON_stringify (JString s) = QuoteJSONString s"
| "JSON_stringify (JArray xs) = ''['' @ stringify_elements xs @ '']''"
| "JSON_stringify (JObject ms) = ''{'' @ stringify_members ms @ ''}''"
| "stringify_elements [] = []"
| "stringify_elements [x] = JSON_stringify x"
| "stringify_elements (x # y # ys) = JSON_stringify x @ '','' @ stringify_elements (y # ys)"
| "stringify_members [] = []"
| "stringify_members [(k, v)] = QuoteJSONString k @ '':'' @ JSON_stringify v"
| "stringify_members ((k, v) # m # ms) =
     QuoteJSONString k @ '':'' @ JSON_stringify v @ '','' @ stringify_members (m # ms)"

section \<open>Chat page: messages\<close>

record Citation =
  url :: string
  title :: "string option"

record DocumentSource =
  source :: string
  preview :: string

datatype SourcesType = Documents | Web

text \<open>
  The interface \<open>Sources\<close>: a tag and both arrays (fields \<open>type\<close>, \<open>documents\<close> and
  \<open>web\<close> in the source).
\<close>

record Sources =
  sources_type :: SourcesType
  sources_documents :: "DocumentSource list"
  sources_web :: "Citation list"

datatype Role = User | Assistant

datatype Feedback = ThumbsUp | ThumbsDown

record Message =
  role :: Role
  content :: string
  sources :: "Sources option"
  feedback :: "Feedback option"

text \<open>
  The JavaScript object behind each typed value: the properties in the order the page
  creates them, an absent optional field as no property at all.
\<close>

definition js_of_Citation :: "Citation \<Rightarrow> json" where
  "js_of_Citation c =
     JObject ([(''url'', JString (url c))]
              @ (case title c of None \<Rightarrow> [] | Some t \<Rightarrow> [(''title'', JString t)]))"

definition js_of_DocumentSource :: "DocumentSource \<Rightarrow> json" where
  "js_of_DocumentSource d =
     JObject [(''source'', JString (source d)), (''preview'', JString (preview d))]"

definition js_of_SourcesType :: "SourcesType \<Rightarrow> json" where
  "js_of_SourcesType t = JString (case t of Documents \<Rightarrow> ''documents'' | Web \<Rightarrow> ''web'')"

definition js_of_Sources :: "Sources \<Rightarrow> json" where
  "js_of_Sources src =
     JObject [(''type'', js_of_SourcesType (sources_type src)),
              (''documents'', JArray (map js_of_DocumentSource (sources_documents src))),
              (''web'', JArray (map js_of_Citation (sources_web src)))]"

definition js_of_Role :: "Role \<Rightarrow> json" where
  "js_of_Role r = JString (case r of User \<Rightarrow> ''user'' | Assistant \<Rightarrow> ''assistant'')"

definition js_of_Feedback :: "Feedback \<Rightarrow> json" where
  "js_of_Feedback f = JString (case f of ThumbsUp \<Rightarrow> ''thumbsUp'' | ThumbsDown \<Rightarrow> ''thumbsDown'')"

definition js_of_Message :: "Message \<Rightarrow> json" where
  "js_of_Message m =
     JObject ([(''role'', js_of_Role (role m)), (''content'', JString (content m))]
              @ (case sources m of None \<Rightarrow> [] | Some src \<Rightarrow> [(''sources'', js_of_Sources src)])
              @ (case feedback m of None \<Rightarrow> [] | Some f \<Rightarrow> [(''feedback'', js_of_Feedback f)]))"

definition js_of_messages :: "Message list \<Rightarrow> json" where
  "js_of_messages ms = JArray (map js_of_Message ms)"

section \<open>Chat page: state and handlers\<close>

type_synonym Storage = "string \<rightharpoonup> string"

record ChatRequest =
  question :: string
  request_language :: string

text \<open>The body of a successful \<open>POST /chat\<close>: \<open>sources\<close> may be missing.\<close>

record ChatResponse =
  answer :: string
  response_sources :: "Sources option"

text \<open>
  What the \<open>catch\<close> block of \<open>handleSubmit\<close> tells apart: the server answered with a
  status and perhaps a \<open>detail\<close> in its body, or there is no \<open>error.response\<close>.
\<close>

datatype chat_error = ChatResponded nat "string option" | ChatNoResponse

text \<open>
  The component state of the chat page, one field for each \<open>useState\<close> (\<open>chat_loading\<close>
  is \<open>loading\<close> in the source), together with the two things outside the component that
  its handlers act on: the browser's \<open>localStorage\<close> and the chat requests sent so far.
\<close>

record ChatState =
  messages :: "Message list"
  input :: string
  chat_loading :: bool
  language :: string
  showFeedbackModal :: bool
  feedbackText :: string
  selectedMessageIndex :: "nat option"
  expandedSources :: "nat \<rightharpoonup> bool"
  localStorage :: Storage
  requests :: "ChatRequest list"

text \<open>
  \<open>String.prototype.trim\<close> on code units below 256: tab, line feed, vertical tab, form
  feed, carriage return, space and no-break space are stripped from both ends.
\<close>

definition is_space :: "char \<Rightarrow> bool" where
  "is_space c = (c \<in> {CHR 0x09, CHR 0x0A, CHR 0x0B, CHR 0x0C, CHR 0x0D, CHR 0x20, CHR 0xA0})"

definition trim :: "string \<Rightarrow> string" where
  "trim s = rev (dropWhile is_space (rev (dropWhile is_space s)))"

text \<open>
  The effect \<open>useEffect(..., [messages])\<close>: after a render with a new \<open>messages\<close> array
  the transcript is written to the key \<open>chatMessages\<close>. Every handler below that calls
  \<open>setMessages\<close> is followed by it.
\<close>

definition persist :: "ChatState \<Rightarrow> ChatState" where
  "persist s =
     s\<lparr>localStorage := (localStorage s)(''chatMessages'' \<mapsto> JSON_stringify (js_of_messages (messages s)))\<rparr>"

text \<open>
  \<open>handleSubmit\<close> up to its \<open>await\<close>: the guard, then the input is cleared, \<open>loading\<close>
  is set, the user message is appended and the request leaves. A handler sees the state of
  the latest render.
\<close>

definition handleSubmit :: "ChatState \<Rightarrow> ChatState" where
  "handleSubmit s =
     (if trim (input s) = [] \<or> chat_loading s then s
      else
        let question = trim (input s)
        in persist (s\<lparr>input := [], chat_loading := True,
                      messages := messages s
                        @ [\<lparr>role = User, content = question, sources = None, feedback = None\<rparr>],
                      requests := requests s
                        @ [\<lparr>question = question, request_language = language s\<rparr>]\<rparr>))"

text \<open>The text of the assistant message that stands for a failed request.\<close>

fun chat_error_message :: "chat_error \<Rightarrow> string" where
  "chat_error_message (ChatResponded status detail) =
     (if status = 401 then ''Please add your API keys in the Settings page first.''
      else if truthy detail then the detail
      else ''Sorry, I encountered an error. Please try again.'')"
| "chat_error_message ChatNoResponse = ''Sorry, I encountered an error. Please try again.''"

text \<open>
  \<open>handleSubmit\<close> from the settlement of its request on: the answer or the error text is
  appended as an assistant message, and \<open>finally\<close> switches \<open>loading\<close> off.
\<close>

definition handleSubmit_settled :: "chat_error + ChatResponse \<Rightarrow> ChatState \<Rightarrow> ChatState" where
  "handleSubmit_settled r s =
     (let m = (case r of
                 Inr response \<Rightarrow>
                   \<lparr>role = Assistant, content = answer response,
                    sources = response_sources response, feedback = None\<rparr>
               | Inl err \<Rightarrow>
                   \<lparr>role = Assistant, content = chat_error_message err,
                    sources = None, feedback = None\<rparr>)
      in persist (s\<lparr>messages := messages s @ [m], chat_loading := False\<rparr>))"

text \<open>
  \<open>handleFeedback\<close>: only \<open>thumbsUp\<close> does anything; it replaces the message at the index
  by a copy with the feedback set, whatever the role of that message. An index outside the
  array makes JavaScript store an object without role and content there, which is no
  \<open>Message\<close> any more: that case is \<open>None\<close>.
\<close>

definition handleFeedback :: "nat \<Rightarrow> Feedback \<Rightarrow> ChatState \<Rightarrow> ChatState option" where
  "handleFeedback messageIndex fb s =
     (if fb = ThumbsUp
      then (if messageIndex < length (messages s)
            then Some (persist (s\<lparr>messages :=
                         (messages s)[messageIndex :=
                            (messages s ! messageIndex)\<lparr>feedback := Some fb\<rparr>]\<rparr>))
            else None)
      else Some s)"

text \<open>
  \<open>handleClearChat\<close>, given the answer to the confirmation dialog. The key is removed, and
  the effect that follows the render of the new empty array writes it again.
\<close>

definition handleClearChat :: "bool \<Rightarrow> ChatState \<Rightarrow> ChatState" where
  "handleClearChat confirmed s =
     (if confirmed
      then persist (s\<lparr>messages := [], expandedSources := Map.empty,
                      localStorage := (localStorage s)(''chatMessages'' := None)\<rparr>)
      else s)"

definition toggleSources :: "nat \<Rightarrow> ChatState \<Rightarrow> ChatState" where
  "toggleSources idx s =
     s\<lparr>expandedSources := (expandedSources s)(idx \<mapsto> \<not> (expandedSources s idx = Some True))\<rparr>"

text \<open>The thumbs-down button: it only opens the feedback dialog for the message.\<close>

definition openFeedbackModal :: "nat \<Rightarrow> ChatState \<Rightarrow> ChatState" where
  "openFeedbackModal idx s = s\<lparr>selectedMessageIndex := Some idx, showFeedbackModal := True\<rparr>"

text \<open>\<open>handleFeedbackSubmit\<close> and the cancel button do the same: close and forget.\<close>

definition handleFeedbackSubmit :: "ChatState \<Rightarrow> ChatState" where
  "handleFeedbackSubmit s =
     s\<lparr>showFeedbackModal := False, feedbackText := [], selectedMessageIndex := None\<rparr>"

text \<open>
  What can happen to the page. Typing and submitting are taken as possible in every state:
  \<open>handleSubmit\<close> guards itself. The other events are possible only where the page
  renders their control: the feedback buttons exist for assistant messages only, the
  sources toggle for assistant messages with sources, the clear button for a transcript
  that is not empty. A request can settle only while one is pending.
\<close>

datatype chat_event =
    InputChanged string
  | LanguageChanged string
  | FormSubmitted
  | RequestSettled "chat_error + ChatResponse"
  | ThumbsUpClicked nat
  | ThumbsDownClicked nat
  | SourcesToggled nat
  | ClearClicked bool
  | FeedbackTextChanged string
  | FeedbackClosed

definition is_assistant_at :: "nat \<Rightarrow> ChatState \<Rightarrow> bool" where
  "is_assistant_at idx s = (idx < length (messages s) \<and> role (messages s ! idx) = Assistant)"

fun chat_step :: "chat_event \<Rightarrow> ChatState \<Rightarrow> ChatState option" where
  "chat_step (InputChanged v) s = Some (s\<lparr>input := v\<rparr>)"
| "chat_step (LanguageChanged v) s = Some (s\<lparr>language := v\<rparr>)"
| "chat_step FormSubmitted s = Some (handleSubmit s)"
| "chat_step (RequestSettled r) s =
     (if chat_loading s then Some (handleSubmit_settled r s) else None)"
| "chat_step (ThumbsUpClicked idx) s =
     (if is_assistant_at idx s then handleFeedback idx ThumbsUp s else None)"
| "chat_step (ThumbsDownClicked idx) s =
     (if is_assistant_at idx s then Some (openFeedbackModal idx s) else None)"
| "chat_step (SourcesToggled idx) s =
     (if is_assistant_at idx s \<and> sources (messages s ! idx) \<noteq> None
      then Some (toggleSources idx s) else None)"
| "chat_step (ClearClicked confirmed) s =
     (if messages s \<noteq> [] then Some (handleClearChat confirmed s) else None)"
| "chat_step (FeedbackTextChanged v) s = Some (s\<lparr>feedbackText := v\<rparr>)"
| "chat_step FeedbackClosed s = Some (handleFeedbackSubmit s)"

fun chat_run :: "chat_event list \<Rightarrow> ChatState \<Rightarrow> ChatState option" where
  "chat_run [] s = Some s"
| "chat_run (e # es) s = (case chat_step e s of None \<Rightarrow> None | Some s' \<Rightarrow> chat_run es s')"

text \<open>The state of a freshly mounted page over an empty storage.\<close>

definition emptyChatState :: ChatState where
  "emptyChatState =
     \<lparr>messages = [], input = [], chat_loading = False, language = ''English'',
      showFeedbackModal = False, feedbackText = [], selectedMessageIndex = None,
      expandedSources = Map.empty,
      localStorage = [''chatMessages'' \<mapsto> ''[]''], requests = []\<rparr>"

section \<open>Chat page: reading a transcript\<close>

text \<open>The feedback of the message at an index after an operation, if there is one.\<close>

definition feedback_at :: "nat \<Rightarrow> ChatState option \<Rightarrow> Feedback option" where
  "feedback_at idx r =
     (case r of
        None \<Rightarrow> None
      | Some s \<Rightarrow> if idx < length (messages s) then feedback (messages s ! idx) else None)"

text \<open>No user message of a transcript carries sources or feedback.\<close>

definition user_clean :: "Message list \<Rightarrow> bool" where
  "user_clean msgs =
     list_all (\<lambda>m. role m = User \<longrightarrow> sources m = None \<and> feedback m = None) msgs"





text \<open>A transcript of one assistant message and one of one user message, for concrete runs.\<close>

definition one_answer :: ChatState where
  "one_answer =
     emptyChatState\<lparr>messages :=
       [\<lparr>role = Assistant, content = ''Hello'', sources = None, feedback = None\<rparr>]\<rparr>"

definition one_question :: ChatState where
  "one_question =
     emptyChatState\<lparr>messages :=
       [\<lparr>role = User, content = ''Hi'', sources = None, feedback = None\<rparr>]\<rparr>"

text \<open>The transcript after a sequence of events, when every one of them was possible.\<close>

definition transcript_after :: "chat_event list \<Rightarrow> ChatState \<Rightarrow> Message list option" where
  "transcript_after evs s = map_option messages (chat_run evs s)"


text \<open>An answer of the remote service with web sources, for concrete runs.\<close>

definition web_answer :: ChatResponse where
  "web_answer =
     \<lparr>answer = ''See the handbook.'',
      response_sources = Some \<lparr>sources_type = Web, sources_documents = [],
                               sources_web = [\<lparr>url = ''https://example.org'', title = None\<rparr>]\<rparr>\<rparr>"



section \<open>Settings page\<close>

record SavedKeys =
  openAi :: string
  tavily :: string

text \<open>
  The component state of the settings page (\<open>settings_message\<close> is \<open>message\<close> in the
  source). The timers that blank the two texts a few seconds later are not part of the
  model.
\<close>

record SettingsState =
  openAiKey :: string
  tavilyKey :: string
  settings_message :: string
  error :: string
  savedKeys :: SavedKeys





















section \<open>Reading JSON text\<close>

text \<open>
  \<open>JSON.parse\<close> on texts built from strings, arrays, objects, \<open>null\<close> and the booleans.
  \<open>None\<close> stands for the \<open>SyntaxError\<close> it throws; a text with a number, or with an
  escape for a code unit above 255, is outside this model and is \<open>None\<close> as well.
\<close>

definition is_json_ws :: "char \<Rightarrow> bool" where
  "is_json_ws c = (c = CHR 0x20 \<or> c = CHR 0x09 \<or> c = CHR 0x0A \<or> c = CHR 0x0D)"

definition skip_ws :: "string \<Rightarrow> string" where
  "skip_ws s = dropWhile is_json_ws s"

definition hex_value :: "char \<Rightarrow> nat option" where
  "hex_value c =
     (let n = (of_char c :: nat)
      in if 48 \<le> n \<and> n \<le> 57 then Some (n - 48)
         else if 97 \<le> n \<and> n \<le> 102 then Some (n - 87)
         else if 65 \<le> n \<and> n \<le> 70 then Some (n - 55)
         else None)"

definition hex4 :: "char \<Rightarrow> char \<Rightarrow> char \<Rightarrow> char \<Rightarrow> nat option" where
  "hex4 a b c d =
     (case (hex_value a, hex_value b, hex_value c, hex_value d) of
        (Some x, Some y, Some z, Some w) \<Rightarrow> Some (((x * 16 + y) * 16 + z) * 16 + w)
      | _ \<Rightarrow> None)"

text \<open>The character a one-letter escape stands for.\<close>

definition unescape :: "char \<Rightarrow> char option" where
  "unescape e =
     (if e = CHR 0x22 then Some (CHR 0x22)
      else if e = CHR 0x5C then Some (CHR 0x5C)
      else if e = CHR ''/'' then Some (CHR ''/'')
      else if e = CHR ''b'' then Some (CHR 0x08)
      else if e = CHR ''f'' then Some (CHR 0x0C)
      else if e = CHR ''n'' then Some (CHR 0x0A)
      else if e = CHR ''r'' then Some (CHR 0x0D)
      else if e = CHR ''t'' then Some (CHR 0x09)
      else None)"

definition cons_char :: "char \<Rightarrow> (string \<times> string) option \<Rightarrow> (string \<times> string) option" where
  "cons_char c r = (case r of None \<Rightarrow> None | Some (s, rest) \<Rightarrow> Some (c # s, rest))"

text \<open>
  The characters of a string literal after its opening quote, up to and including the
  closing quote: the string they stand for and the text that follows.
\<close>

fun parse_chars :: "string \<Rightarrow> (string \<times> string) option"
  and parse_escape :: "string \<Rightarrow> (string \<times> string) option"
  and parse_hex4 :: "string \<Rightarrow> (string \<times> string) option" where
  "parse_chars [] = None"
| "parse_chars (c # cs) =
     (if c = CHR 0x22 then Some ([], cs)
      else if c = CHR 0x5C then parse_escape cs
      else if (of_char c :: nat) < 32 then None
      else cons_char c (parse_chars cs))"
| "parse_escape [] = None"
| "parse_escape (e # cs) =
     (if e = CHR ''u'' then parse_hex4 cs
      else (case unescape e of None \<Rightarrow> None | Some c \<Rightarrow> cons_char c (parse_chars cs)))"
| "parse_hex4 (a # b # c # d # cs) =
     (case hex4 a b c d of
        None \<Rightarrow> None
      | Some n \<Rightarrow> if n < 256 then cons_char (char_of n) (parse_chars cs) else None)"
| "parse_hex4 cs = None"

text \<open>
  A value, the elements of an array that is not empty (up to its closing bracket), and the
  members of an object that is not empty (up to its closing brace). The first argument
  bounds the number of calls still allowed, so that the functions are total.
\<close>

fun parse_value :: "nat \<Rightarrow> string \<Rightarrow> (json \<times> string) option"
  and parse_elements :: "nat \<Rightarrow> string \<Rightarrow> (json list \<times> string) option"
  and parse_members :: "nat \<Rightarrow> string \<Rightarrow> ((string \<times> json) list \<times> string) option" where
  "parse_value 0 s = None"
| "parse_value (Suc n) s =
     (case skip_ws s of
        [] \<Rightarrow> None
      | c # cs \<Rightarrow>
          if c = CHR 0x22
          then (case parse_chars cs of None \<Rightarrow> None | Some (t, r) \<Rightarrow> Some (JString t, r))
          else if c = CHR ''[''
          then (if take 1 (skip_ws cs) = '']'' then Some (JArray [], drop 1 (skip_ws cs))
                else (case parse_elements n cs of
                        None \<Rightarrow> None
                      | Some (xs, r) \<Rightarrow> Some (JArray xs, r)))
          else if c = CHR ''{''
          then (if take 1 (skip_ws cs) = ''}'' then Some (JObject [], drop 1 (skip_ws cs))
                else (case parse_members n cs of
                        None \<Rightarrow> None
                      | Some (ms, r) \<Rightarrow> Some (JObject ms, r)))
          else if take 4 (c # cs) = ''null'' then Some (JNull, drop 4 (c # cs))
          else if take 4 (c # cs) = ''true'' then Some (JBool True, drop 4 (c # cs))
          else if take 5 (c # cs) = ''false'' then Some (JBool False, drop 5 (c # cs))
          else None)"
| "parse_elements 0 s = None"
| "parse_elements (Suc n) s =
     (case parse_value n s of
        None \<Rightarrow> None
      | Some (x, r) \<Rightarrow>
          (case skip_ws r of
             [] \<Rightarrow> None
           | c # r' \<Rightarrow>
               if c = CHR '','' then (case parse_elements n r' of
                                      None \<Rightarrow> None
                                    | Some (xs, r'') \<Rightarrow> Some (x # xs, r''))
               else if c = CHR '']'' then Some ([x], r')
               else None))"
| "parse_members 0 s = None"
| "parse_members (Suc n) s =
     (case skip_ws s of
        [] \<Rightarrow> None
      | q # cs \<Rightarrow>
          if q = CHR 0x22
          then (case parse_chars cs of
                  None \<Rightarrow> None
                | Some (k, r) \<Rightarrow>
                    (case skip_ws r of
                       [] \<Rightarrow> None
                     | c # r' \<Rightarrow>
                         if c = CHR '':''
                         then (case parse_value n r' of
                                 None \<Rightarrow> None
                               | Some (v, r'') \<Rightarrow>
                                   (case skip_ws r'' of
                                      [] \<Rightarrow> None
                                    | d # r3 \<Rightarrow>
                                        if d = CHR '',''
                                        then (case parse_members n r3 of
                                                None \<Rightarrow> None
                                              | Some (ms, r4) \<Rightarrow> Some ((k, v) # ms, r4))
                                        else if d = CHR ''}'' then Some ([(k, v)], r3)
                                        else None))
                         else None))
          else None)"

text \<open>\<open>JSON.parse\<close>: one value and nothing but white space after it.\<close>

definition JSON_parse :: "string \<Rightarrow> json option" where
  "JSON_parse s =
     (case parse_value (length s) s of
        None \<Rightarrow> None
      | Some (j, r) \<Rightarrow> if skip_ws r = [] then Some j else None)"

text \<open>The number of parser calls that reading the text of a value takes.\<close>

fun fuel_value :: "json \<Rightarrow> nat"
  and fuel_elements :: "json list \<Rightarrow> nat"
  and fuel_members :: "(string \<times> json) list \<Rightarrow> nat" where
  "fuel_value JNull = Suc 0"
| "fuel_value (JBool b) = Suc 0"
| "fuel_value (JString s) = Suc 0"
| "fuel_value (JArray xs) = Suc (fuel_elements xs)"
| "fuel_value (JObject ms) = Suc (fuel_members ms)"
| "fuel_elements [] = 0"
| "fuel_elements (x # xs) = Suc (fuel_value x + fuel_elements xs)"
| "fuel_members [] = 0"
| "fuel_members ((k, v) # ms) = Suc (fuel_value v + fuel_members ms)"

text \<open>A text that begins the way the text of a value begins.\<close>

definition starts_value :: "string \<Rightarrow> bool" where
  "starts_value s = (case s of [] \<Rightarrow> False | c # cs \<Rightarrow> c \<in> {CHR 0x22, CHR ''['', CHR ''{'', CHR ''n'', CHR ''t'', CHR ''f''})"


section \<open>Chat page: restoring the transcript\<close>

text \<open>
  Property access on a parsed value: the last property of that name in the text is the one
  the object has; anything but an object has none.
\<close>

fun js_get :: "json \<Rightarrow> string \<Rightarrow> json option" where
  "js_get (JObject ms) k = map_of (rev ms) k"
| "js_get j k = None"

fun js_string :: "json option \<Rightarrow> string option" where
  "js_string (Some (JString s)) = Some s"
| "js_string v = None"

fun js_array :: "(json \<Rightarrow> 'a option) \<Rightarrow> json option \<Rightarrow> 'a list option" where
  "js_array f (Some (JArray xs)) = those (map f xs)"
| "js_array f v = None"

text \<open>
  The typed value a JavaScript value is, if it is one: the page casts the parsed array to
  \<open>Message[]\<close> unchecked, and these functions say which values that cast is right for.
\<close>

definition Citation_of_js :: "json \<Rightarrow> Citation option" where
  "Citation_of_js j =
     (case js_string (js_get j ''url'') of
        None \<Rightarrow> None
      | Some u \<Rightarrow>
          (case js_get j ''title'' of
             None \<Rightarrow> Some \<lparr>url = u, title = None\<rparr>
           | Some v \<Rightarrow> map_option (\<lambda>t. \<lparr>url = u, title = Some t\<rparr>) (js_string (Some v))))"

definition DocumentSource_of_js :: "json \<Rightarrow> DocumentSource option" where
  "DocumentSource_of_js j =
     (case (js_string (js_get j ''source''), js_string (js_get j ''preview'')) of
        (Some a, Some b) \<Rightarrow> Some \<lparr>source = a, preview = b\<rparr>
      | _ \<Rightarrow> None)"

definition SourcesType_of_js :: "json option \<Rightarrow> SourcesType option" where
  "SourcesType_of_js v =
     (case js_string v of
        None \<Rightarrow> None
      | Some t \<Rightarrow> if t = ''documents'' then Some Documents
                  else if t = ''web'' then Some Web else None)"

definition Sources_of_js :: "json \<Rightarrow> Sources option" where
  "Sources_of_js j =
     (case (SourcesType_of_js (js_get j ''type''),
            js_array DocumentSource_of_js (js_get j ''documents''),
            js_array Citation_of_js (js_get j ''web'')) of
        (Some t, Some ds, Some ws) \<Rightarrow>
          Some \<lparr>sources_type = t, sources_documents = ds, sources_web = ws\<rparr>
      | _ \<Rightarrow> None)"

definition Role_of_js :: "json option \<Rightarrow> Role option" where
  "Role_of_js v =
     (case js_string v of
        None \<Rightarrow> None
      | Some t \<Rightarrow> if t = ''user'' then Some User
                  else if t = ''assistant'' then Some Assistant else None)"

definition Feedback_of_js :: "json \<Rightarrow> Feedback option" where
  "Feedback_of_js v =
     (case js_string (Some v) of
        None \<Rightarrow> None
      | Some t \<Rightarrow> if t = ''thumbsUp'' then Some ThumbsUp
                  else if t = ''thumbsDown'' then Some ThumbsDown else None)"

text \<open>An optional field: absent, or present with a value of its type.\<close>

definition js_optional :: "(json \<Rightarrow> 'a option) \<Rightarrow> json option \<Rightarrow> 'a option option" where
  "js_optional f v = (case v of None \<Rightarrow> Some None | Some x \<Rightarrow> map_option Some (f x))"

definition Message_of_js :: "json \<Rightarrow> Message option" where
  "Message_of_js j =
     (case (Role_of_js (js_get j ''role''), js_string (js_get j ''content''),
            js_optional Sources_of_js (js_get j ''sources''),
            js_optional Feedback_of_js (js_get j ''feedback'')) of
        (Some r, Some c, Some src, Some fb) \<Rightarrow>
          Some \<lparr>role = r, content = c, sources = src, feedback = fb\<rparr>
      | _ \<Rightarrow> None)"

definition messages_of_js :: "json \<Rightarrow> Message list option" where
  "messages_of_js j = js_array Message_of_js (Some j)"

text \<open>
  The initializer of the \<open>messages\<close> state: the parsed text under \<open>chatMessages\<close>, the
  empty transcript when there is no text or an empty one. \<open>None\<close>: the text does not
  parse, or is not a transcript.
\<close>

definition restore :: "Storage \<Rightarrow> Message list option" where
  "restore store =
     (case store ''chatMessages'' of
        None \<Rightarrow> Some []
      | Some text \<Rightarrow> if text = [] then Some [] else Option.bind (JSON_parse text) messages_of_js)"

section \<open>Theorems\<close>

lemma split_not_Nil: "split c s \<noteq> []"
  by (induction s) (auto split: list.splits)

lemma split_no_sep: "c \<notin> set s \<Longrightarrow> split c s = [s]"
  by (induction s) auto

lemma split_append: "split c (a @ c # b) = split c a @ split c b"
proof (induction a)
  case Nil
  then show ?case by simp
next
  case (Cons x a)
  obtain p ps where sp: "split c a = p # ps"
    using split_not_Nil[of c a] by (cases "split c a") auto
  show ?case using Cons sp by simp
qed

lemma last_split: "last (split CHR ''.'' s) = spec_extension s"
proof (cases "CHR ''.'' \<in> set s")
  case False
  then have tw: "takeWhile (\<lambda>c. c \<noteq> CHR ''.'') (rev s) = rev s"
    by auto
  show ?thesis
    unfolding spec_extension_def tw using False by (simp add: split_no_sep)
next
  case True
  then obtain a b where s: "s = a @ CHR ''.'' # b" and nb: "CHR ''.'' \<notin> set b"
    using split_list_last[of "CHR ''.''" s] by blast
  have "takeWhile (\<lambda>c. c \<noteq> CHR ''.'') (rev b @ CHR ''.'' # rev a) = rev b"
    using nb by (subst takeWhile_append2) auto
  then show ?thesis using nb
    by (simp add: s split_append split_not_Nil split_no_sep spec_extension_def)
qed

lemma extension_eq: "extension file = CHR ''.'' # toLowerCase (spec_extension (name file))"
  by (simp add: extension_def pop_def split_not_Nil last_split)

lemma allowed_iff:
  "extension file \<in> set ALLOWED_TYPES \<longleftrightarrow>
     toLowerCase (spec_extension (name file)) \<in> spec_allowed"
  by (auto simp: extension_eq ALLOWED_TYPES_def spec_allowed_def)

text \<open>
  C1. \<open>validateFile\<close> accepts a file (returns \<open>null\<close>) exactly when its size is at most
  50 MiB and the lowercased part of its name after the last dot is one of pdf, docx, md,
  html, txt; in every other case it returns a rejection reason. For a name without a dot
  the whole lowercased name is what is looked up.
\<close>

theorem validateFile_accepts_iff:
  "(validateFile file = None \<longleftrightarrow>
      fsize file \<le> 50 * 1024 * 1024 \<and> toLowerCase (spec_extension (name file)) \<in> spec_allowed)
   \<and> ((\<exists>reason. validateFile file = Some reason) \<longleftrightarrow>
      \<not> (fsize file \<le> 50 * 1024 * 1024 \<and> toLowerCase (spec_extension (name file)) \<in> spec_allowed))
   \<and> (CHR ''.'' \<notin> set (name file) \<longrightarrow>
       (validateFile file = None \<longleftrightarrow>
          fsize file \<le> 50 * 1024 * 1024 \<and> toLowerCase (name file) \<in> spec_allowed))"
proof -
  have acc: "validateFile file = None \<longleftrightarrow>
      fsize file \<le> 50 * 1024 * 1024 \<and> toLowerCase (spec_extension (name file)) \<in> spec_allowed"
    by (auto simp: validateFile_def MAX_FILE_SIZE_def allowed_iff)
  have nodot: "CHR ''.'' \<notin> set (name file) \<Longrightarrow> spec_extension (name file) = name file"
    using last_split[of "name file"] by (simp add: split_no_sep)
  show ?thesis using acc nodot by auto
qed

theorem validateFile_accepts_iff_witness:
  "CHR ''.'' \<notin> set ''PDF'' \<and> validateFile \<lparr>name = ''PDF'', fsize = 52428800\<rparr> = None"
proof -
  have nd: "CHR ''.'' \<notin> set ''PDF''" by simp
  have low: "toLowerCase ''PDF'' \<in> spec_allowed" by code_simp
  show ?thesis
    using validateFile_accepts_iff [of "\<lparr>name = ''PDF'', fsize = 52428800\<rparr>"] nd low
    by simp
qed

subsection \<open>The upload loop\<close>

























text \<open>
  While nothing but progress happens in flight, the in-flight states of a file are the
  states its callbacks produce.
\<close>

lemma fold_in_flight_progress:
  "fold (in_flight n) (map Progress evs) s = fold (onProgress n) (uploadDocument_progress evs) s"
  by (induction evs arbitrary: s)
     (simp_all add: uploadDocument_progress_def List.map_filter_simps split: option.splits)

lemma fold_onProgress_last:
  "fold (onProgress n) ps s = last (s # progress_states n ps s)"
  by (induction ps arbitrary: s) simp_all

lemma displayed_progress_states: "displayed n (progress_states n ps s) = ps"
  by (induction ps arbitrary: s) (simp_all add: displayed_def List.map_filter_simps onProgress_def)

text \<open>
  C4 (as amended). The callback overwrites the entry of its file: after each callback the
  displayed percentage is the value that callback delivered, so the displayed values never
  fall exactly when the delivered values arrive in non-decreasing order. The state the loop
  of \<open>handleUpload\<close> continues with is the last of these states.
\<close>

theorem displayed_progress_is_latest_callback:
  "displayed n (progress_states n ps s) = ps
   \<and> (sorted (displayed n (progress_states n ps s)) \<longleftrightarrow> sorted ps)
   \<and> fold (onProgress n) ps s = last (s # progress_states n ps s)"
  using fold_onProgress_last by (simp add: displayed_progress_states)

text \<open>
  C4 as stated fails: callbacks delivering 50 and then 30 leave 30 displayed after 50.
\<close>

theorem progress_regresses_counterexample:
  "displayed ''a.pdf'' (progress_states ''a.pdf'' [50, 30] initialUploadState) = [50, 30]
   \<and> \<not> sorted (displayed ''a.pdf'' (progress_states ''a.pdf'' [50, 30] initialUploadState))"
  by (simp add: displayed_def List.map_filter_simps onProgress_def)

text \<open>
  What \<open>uploadDocument\<close> delivers is non-decreasing when the transferred byte count
  never falls and the total stays the same.
\<close>

lemma Math_round_div_mono: "a \<le> b \<Longrightarrow> Math_round_div a t \<le> Math_round_div b t"
  by (simp add: Math_round_div_def div_le_mono)

lemma uploadDocument_progress_sorted:
  assumes "sorted (map loaded evs)" and "\<forall>e\<in>set evs. total e = Some t"
  shows "sorted (uploadDocument_progress evs)"
  using assms
proof (induction evs)
  case Nil
  then show ?case by (simp add: uploadDocument_progress_def List.map_filter_simps)
next
  case (Cons e evs)
  then have IH: "sorted (uploadDocument_progress evs)" by simp
  have set_le: "\<forall>p \<in> set (uploadDocument_progress evs). t \<noteq> 0 \<longrightarrow> Math_round_div (loaded e * 100) t \<le> p"
  proof
    fix p assume "p \<in> set (uploadDocument_progress evs)"
    then obtain e' where e': "e' \<in> set evs" "onUploadProgress e' = Some p"
      by (auto simp: uploadDocument_progress_def List.map_filter_def)
    then have "loaded e \<le> loaded e'" using Cons.prems(1) by auto
    moreover have "total e' = Some t" using e' Cons.prems(2) by simp
    ultimately show "t \<noteq> 0 \<longrightarrow> Math_round_div (loaded e * 100) t \<le> p"
      using e'(2) by (auto simp: onUploadProgress_def intro!: Math_round_div_mono)
  qed
  have te: "total e = Some t" using Cons.prems(2) by simp
  show ?case
    using IH set_le te
    by (auto simp: uploadDocument_progress_def List.map_filter_simps onUploadProgress_def)
qed

subsection \<open>The chat handlers\<close>

lemma persist_fields:
  "messages (persist s) = messages s"
  "requests (persist s) = requests s"
  "chat_loading (persist s) = chat_loading s"
  "input (persist s) = input s"
  by (simp_all add: persist_def)

text \<open>
  C10. Submitting an input that is empty after trimming changes nothing: the state after
  \<open>handleSubmit\<close> is the state before it, so no message is appended, no request is
  sent and the stored transcript is untouched.
\<close>

theorem handleSubmit_blank_is_noop:
  "trim (input s) = [] \<Longrightarrow>
     handleSubmit s = s
     \<and> messages (handleSubmit s) = messages s
     \<and> requests (handleSubmit s) = requests s
     \<and> localStorage (handleSubmit s) = localStorage s"
  by (simp add: handleSubmit_def)

theorem handleSubmit_blank_is_noop_witness:
  "trim (input (emptyChatState\<lparr>input := ''   ''\<rparr>)) = []
   \<and> handleSubmit (emptyChatState\<lparr>input := ''   ''\<rparr>) = emptyChatState\<lparr>input := ''   ''\<rparr>"
proof -
  have t: "trim (input (emptyChatState\<lparr>input := ''   ''\<rparr>)) = []"
    by (simp add: trim_def is_space_def)
  show ?thesis using handleSubmit_blank_is_noop [OF t] t by simp
qed

lemma handleFeedback_ThumbsUp:
  "idx < length (messages s) \<Longrightarrow>
   handleFeedback idx ThumbsUp s =
     Some (persist (s\<lparr>messages := (messages s)[idx := (messages s ! idx)\<lparr>feedback := Some ThumbsUp\<rparr>]\<rparr>))"
  by (simp add: handleFeedback_def)

lemma handleFeedback_ThumbsDown: "handleFeedback idx ThumbsDown s = Some s"
  by (simp add: handleFeedback_def)

lemma handleFeedback_twice:
  assumes "idx < length (messages s)"
  shows "Option.bind (handleFeedback idx ThumbsUp s) (handleFeedback idx ThumbsUp)
           = handleFeedback idx ThumbsUp s"
  using assms by (simp add: handleFeedback_def persist_def)

text \<open>
  C7 (as amended). For an assistant message, annotating twice with the same value leaves
  the state that annotating once leaves. Only \<open>thumbsUp\<close> is recorded: a \<open>thumbsUp\<close>
  call sets the feedback of the message to \<open>thumbsUp\<close>, a \<open>thumbsDown\<close> call leaves the
  state as it is. So after \<open>thumbsDown\<close> then \<open>thumbsUp\<close> the feedback is \<open>thumbsUp\<close>, and
  after \<open>thumbsUp\<close> then \<open>thumbsDown\<close> it still is \<open>thumbsUp\<close>.
\<close>

theorem handleFeedback_idempotent_thumbsUp_only:
  assumes "is_assistant_at idx s"
  shows "Option.bind (handleFeedback idx v s) (handleFeedback idx v) = handleFeedback idx v s
       \<and> handleFeedback idx ThumbsDown s = Some s
       \<and> feedback_at idx (handleFeedback idx ThumbsUp s) = Some ThumbsUp
       \<and> feedback_at idx (Option.bind (handleFeedback idx ThumbsDown s) (handleFeedback idx ThumbsUp))
           = Some ThumbsUp
       \<and> feedback_at idx (Option.bind (handleFeedback idx ThumbsUp s) (handleFeedback idx ThumbsDown))
           = Some ThumbsUp"
proof -
  have i: "idx < length (messages s)" using assms by (simp add: is_assistant_at_def)
  have idem: "Option.bind (handleFeedback idx v s) (handleFeedback idx v) = handleFeedback idx v s"
    using handleFeedback_twice[OF i] by (cases v) (simp_all add: handleFeedback_ThumbsDown)
  have up: "feedback_at idx (handleFeedback idx ThumbsUp s) = Some ThumbsUp"
    using i by (simp add: handleFeedback_ThumbsUp feedback_at_def persist_fields)
  show ?thesis using idem up by (simp add: handleFeedback_ThumbsDown handleFeedback_ThumbsUp i)
qed

theorem handleFeedback_idempotent_thumbsUp_only_witness:
  "is_assistant_at 0 one_answer
   \<and> feedback_at 0 (handleFeedback 0 ThumbsUp one_answer) = Some ThumbsUp
   \<and> handleFeedback 0 ThumbsDown one_answer = Some one_answer"
proof -
  have a: "is_assistant_at 0 one_answer"
    by (simp add: is_assistant_at_def one_answer_def)
  show ?thesis using handleFeedback_idempotent_thumbsUp_only [OF a] a by simp
qed

text \<open>
  C7 as stated fails: \<open>thumbsUp\<close> followed by \<open>thumbsDown\<close> on the same assistant message
  leaves \<open>thumbsUp\<close>, not the later value.
\<close>

theorem handleFeedback_thumbsDown_ignored_counterexample:
  "feedback_at 0 (Option.bind (handleFeedback 0 ThumbsUp one_answer) (handleFeedback 0 ThumbsDown))
     = Some ThumbsUp
   \<and> feedback_at 0 (Option.bind (handleFeedback 0 ThumbsUp one_answer) (handleFeedback 0 ThumbsDown))
     \<noteq> Some ThumbsDown"
  by (simp add: handleFeedback_def one_answer_def feedback_at_def persist_def)

text \<open>
  C6 as stated fails: called with the index of a user message, \<open>handleFeedback\<close> changes
  the state and leaves that user message with feedback.
\<close>

theorem handleFeedback_on_user_message_counterexample:
  "handleFeedback 0 ThumbsUp one_question \<noteq> Some one_question
   \<and> feedback_at 0 (handleFeedback 0 ThumbsUp one_question) = Some ThumbsUp
   \<and> \<not> is_assistant_at 0 one_question"
proof -
  have f: "feedback_at 0 (handleFeedback 0 ThumbsUp one_question) = Some ThumbsUp"
    by (simp add: handleFeedback_def one_question_def feedback_at_def persist_def)
  have g: "feedback_at 0 (Some one_question) = None"
    by (simp add: one_question_def feedback_at_def)
  have "handleFeedback 0 ThumbsUp one_question \<noteq> Some one_question"
    using f g by auto
  then show ?thesis using f by (simp add: is_assistant_at_def one_question_def)
qed

lemma user_clean_append:
  "user_clean (xs @ [m]) \<longleftrightarrow> user_clean xs \<and> (role m = User \<longrightarrow> sources m = None \<and> feedback m = None)"
  by (simp add: user_clean_def)

lemma user_clean_update:
  assumes "user_clean xs" and "idx < length xs" and "role (xs ! idx) = Assistant"
  shows "user_clean (xs[idx := (xs ! idx)\<lparr>feedback := f\<rparr>])"
  using assms
  by (auto simp: user_clean_def list_all_iff dest!: set_update_subset_insert[THEN subsetD])

lemma chat_step_user_clean:
  assumes "user_clean (messages s)" and "chat_step e s = Some s'"
  shows "user_clean (messages s')"
proof (cases e)
  case FormSubmitted
  with assms show ?thesis
    by (auto simp: handleSubmit_def Let_def persist_fields user_clean_append)
next
  case (RequestSettled r)
  with assms show ?thesis
    by (auto simp: handleSubmit_settled_def Let_def persist_fields user_clean_append
             split: if_splits sum.splits)
next
  case (ThumbsUpClicked idx)
  with assms show ?thesis
    by (auto simp: handleFeedback_def is_assistant_at_def persist_fields user_clean_update
             split: if_splits)
next
  case (ClearClicked c)
  with assms show ?thesis
    by (auto simp: handleClearChat_def persist_fields user_clean_def split: if_splits)
qed (use assms in \<open>auto simp: openFeedbackModal_def toggleSources_def handleFeedbackSubmit_def split: if_splits\<close>)

lemma chat_run_user_clean:
  "user_clean (messages s) \<Longrightarrow> chat_run evs s = Some s' \<Longrightarrow> user_clean (messages s')"
proof (induction evs arbitrary: s)
  case Nil
  then show ?case by simp
next
  case (Cons e evs)
  from Cons.prems(2) obtain s1 where s1: "chat_step e s = Some s1" and r: "chat_run evs s1 = Some s'"
    by (auto split: option.splits)
  from chat_step_user_clean[OF Cons.prems(1) s1] have "user_clean (messages s1)" .
  from Cons.IH[OF this r] show ?case .
qed

text \<open>
  C6 (as amended). \<open>handleSubmit\<close> appends the user message without sources and without
  feedback, and every event the page offers keeps a transcript whose user messages carry
  neither that way: the feedback buttons exist for assistant messages only. The handler
  \<open>handleFeedback\<close> itself does not look at the role: with \<open>thumbsUp\<close> it sets the
  feedback of whatever message the index names.
\<close>

theorem user_messages_stay_clean:
  "(trim (input s) \<noteq> [] \<and> \<not> chat_loading s \<longrightarrow>
      messages (handleSubmit s) = messages s
        @ [\<lparr>role = User, content = trim (input s), sources = None, feedback = None\<rparr>])
   \<and> (user_clean (messages s) \<and> transcript_after evs s = Some msgs \<longrightarrow> user_clean msgs)
   \<and> (idx < length (messages s) \<longrightarrow>
        feedback_at idx (handleFeedback idx ThumbsUp s) = Some ThumbsUp)"
proof -
  have a: "trim (input s) \<noteq> [] \<and> \<not> chat_loading s \<longrightarrow>
      messages (handleSubmit s) = messages s
        @ [\<lparr>role = User, content = trim (input s), sources = None, feedback = None\<rparr>]"
    by (simp add: handleSubmit_def Let_def persist_fields)
  have b: "user_clean (messages s) \<and> transcript_after evs s = Some msgs \<longrightarrow> user_clean msgs"
    using chat_run_user_clean by (auto simp: transcript_after_def)
  have c: "idx < length (messages s) \<longrightarrow>
        feedback_at idx (handleFeedback idx ThumbsUp s) = Some ThumbsUp"
    by (simp add: handleFeedback_ThumbsUp feedback_at_def persist_fields)
  show ?thesis using a b c by blast
qed

theorem user_messages_stay_clean_witness:
  "user_clean (messages (emptyChatState\<lparr>input := ''Hi''\<rparr>))
   \<and> transcript_after [FormSubmitted, RequestSettled (Inr web_answer), ThumbsUpClicked 1]
         (emptyChatState\<lparr>input := ''Hi''\<rparr>)
       = Some [\<lparr>role = User, content = ''Hi'', sources = None, feedback = None\<rparr>,
               \<lparr>role = Assistant, content = answer web_answer,
                sources = response_sources web_answer, feedback = Some ThumbsUp\<rparr>]
   \<and> user_clean [\<lparr>role = User, content = ''Hi'', sources = None, feedback = None\<rparr>,
               \<lparr>role = Assistant, content = answer web_answer,
                sources = response_sources web_answer, feedback = Some ThumbsUp\<rparr>]"
proof -
  have c: "user_clean (messages (emptyChatState\<lparr>input := ''Hi''\<rparr>))"
    by (simp add: emptyChatState_def user_clean_def)
  have t: "transcript_after [FormSubmitted, RequestSettled (Inr web_answer), ThumbsUpClicked 1]
         (emptyChatState\<lparr>input := ''Hi''\<rparr>)
       = Some [\<lparr>role = User, content = ''Hi'', sources = None, feedback = None\<rparr>,
               \<lparr>role = Assistant, content = answer web_answer,
                sources = response_sources web_answer, feedback = Some ThumbsUp\<rparr>]"
    by (simp add: transcript_after_def emptyChatState_def handleSubmit_def handleSubmit_settled_def
          handleFeedback_def is_assistant_at_def persist_fields trim_def is_space_def Let_def)
  show ?thesis
    using user_messages_stay_clean
      [of "emptyChatState\<lparr>input := ''Hi''\<rparr>"
          "[FormSubmitted, RequestSettled (Inr web_answer), ThumbsUpClicked 1]"
          "[\<lparr>role = User, content = ''Hi'', sources = None, feedback = None\<rparr>,
               \<lparr>role = Assistant, content = answer web_answer,
                sources = response_sources web_answer, feedback = Some ThumbsUp\<rparr>]" 0]
      c t by simp
qed

subsection \<open>One request at a time\<close>

















subsection \<open>Saving credentials\<close>








subsection \<open>Reading back what was written\<close>

lemma hex_value_hex_digit: "k < 16 \<Longrightarrow> hex_value (hex_digit k) = Some k"
proof -
  assume "k < 16"
  then have "k = 0 \<or> k = 1 \<or> k = 2 \<or> k = 3 \<or> k = 4 \<or> k = 5 \<or> k = 6 \<or> k = 7
      \<or> k = 8 \<or> k = 9 \<or> k = 10 \<or> k = 11 \<or> k = 12 \<or> k = 13 \<or> k = 14 \<or> k = 15"
    by arith
  then show ?thesis
    by (auto simp: hex_value_def hex_digit_def)
qed

lemma hex_digit_mod: "hex_digit n = hex_digit (n mod 16)"
  by (simp add: hex_digit_def)

lemma hex4_control:
  assumes "n < 32"
  shows "hex4 CHR ''0'' CHR ''0'' (hex_digit (n div 16)) (hex_digit n) = Some n"
proof -
  have z: "hex_value CHR ''0'' = Some 0" by (simp add: hex_value_def)
  have a: "hex_value (hex_digit (n div 16)) = Some (n div 16)"
    using assms by (intro hex_value_hex_digit) simp
  have b: "hex_value (hex_digit n) = Some (n mod 16)"
    using hex_value_hex_digit[of "n mod 16"] hex_digit_mod[of n] by simp
  show ?thesis by (simp add: hex4_def z a b)
qed

lemma parse_chars_quote_char:
  "parse_chars (quote_char c @ t) = cons_char c (parse_chars t)"
proof (cases "c \<in> {CHR 0x08, CHR 0x09, CHR 0x0A, CHR 0x0C, CHR 0x0D, CHR 0x22, CHR 0x5C}")
  case True
  then show ?thesis
    by (auto simp: quote_char_def unescape_def)
next
  case False
  show ?thesis
  proof (cases "(of_char c :: nat) < 32")
    case True
    then have n: "(of_char c :: nat) < 256" by simp
    show ?thesis using False True
      by (simp add: quote_char_def hex4_control)
  next
    case ge: False
    then show ?thesis using False
      by (simp add: quote_char_def)
  qed
qed

lemma parse_chars_quoted:
  "parse_chars (concat (map quote_char s) @ CHR 0x22 # rest) = Some (s, rest)"
  by (induction s) (simp_all add: parse_chars_quote_char cons_char_def)

lemma parse_chars_QuoteJSONString:
  "\<exists>t. QuoteJSONString s @ rest = CHR 0x22 # t \<and> parse_chars t = Some (s, rest)"
  by (simp add: QuoteJSONString_def parse_chars_quoted)

lemma starts_value_stringify: "starts_value (JSON_stringify j)"
  by (cases j) (simp_all add: starts_value_def QuoteJSONString_def)

lemma starts_value_append: "starts_value s \<Longrightarrow> starts_value (s @ t)"
  by (cases s) (simp_all add: starts_value_def)

lemma starts_value_elements: "xs \<noteq> [] \<Longrightarrow> starts_value (stringify_elements xs)"
proof (cases xs)
  case Nil
  then show "xs \<noteq> [] \<Longrightarrow> ?thesis" by simp
next
  case (Cons x ys)
  then show "xs \<noteq> [] \<Longrightarrow> ?thesis"
    by (cases ys) (simp_all add: starts_value_stringify starts_value_append)
qed

lemma starts_value_members: "ms \<noteq> [] \<Longrightarrow> \<exists>t. stringify_members ms = CHR 0x22 # t"
proof (cases ms)
  case Nil
  then show "ms \<noteq> [] \<Longrightarrow> ?thesis" by simp
next
  case (Cons m ys)
  obtain k v where "m = (k, v)" by (cases m)
  with Cons show "ms \<noteq> [] \<Longrightarrow> ?thesis"
    by (cases ys) (simp_all add: QuoteJSONString_def)
qed

lemma skip_ws_starts_value: "starts_value s \<Longrightarrow> skip_ws s = s"
  by (cases s) (auto simp: starts_value_def skip_ws_def is_json_ws_def)

lemma starts_value_not_close:
  "starts_value s \<Longrightarrow> take 1 s \<noteq> '']''"
  by (cases s) (auto simp: starts_value_def)

lemma skip_ws_punct [simp]:
  "skip_ws (CHR '','' # s) = CHR '','' # s"
  "skip_ws (CHR '']'' # s) = CHR '']'' # s"
  "skip_ws (CHR ''}'' # s) = CHR ''}'' # s"
  "skip_ws (CHR '':'' # s) = CHR '':'' # s"
  "skip_ws (CHR 0x22 # s) = CHR 0x22 # s"
  "skip_ws [] = []"
  by (simp_all add: skip_ws_def is_json_ws_def)

lemma parse_roundtrip:
  "(\<forall>k rest. parse_value (fuel_value j + k) (JSON_stringify j @ rest) = Some (j, rest))"
  "(xs \<noteq> [] \<longrightarrow> (\<forall>k rest. parse_elements (fuel_elements xs + k)
        (stringify_elements xs @ CHR '']'' # rest) = Some (xs, rest)))"
  "(ms \<noteq> [] \<longrightarrow> (\<forall>k rest. parse_members (fuel_members ms + k)
        (stringify_members ms @ CHR ''}'' # rest) = Some (ms, rest)))"
proof (induction j and xs and ms rule: JSON_stringify_stringify_elements_stringify_members.induct)
  case 1
  show ?case by (simp add: skip_ws_def is_json_ws_def)
next
  case (2 b)
  show ?case by (simp add: skip_ws_def is_json_ws_def)
next
  case (3 s)
  show ?case
  proof (intro allI)
    fix k rest
    obtain t where t: "QuoteJSONString s @ rest = CHR 0x22 # t" "parse_chars t = Some (s, rest)"
      using parse_chars_QuoteJSONString by blast
    show "parse_value (fuel_value (JString s) + k) (JSON_stringify (JString s) @ rest)
            = Some (JString s, rest)"
      by (simp add: t)
  qed
next
  case (4 xs)
  show ?case
  proof (intro allI)
    fix k rest
    show "parse_value (fuel_value (JArray xs) + k) (JSON_stringify (JArray xs) @ rest)
            = Some (JArray xs, rest)"
    proof (cases "xs = []")
      case True
      then show ?thesis by (simp add: skip_ws_def is_json_ws_def)
    next
      case False
      have sv: "starts_value (stringify_elements xs @ CHR '']'' # rest)"
        using False by (simp add: starts_value_elements starts_value_append)
      have nc: "take 1 (skip_ws (stringify_elements xs @ CHR '']'' # rest)) \<noteq> '']''"
        unfolding skip_ws_starts_value[OF sv] by (rule starts_value_not_close[OF sv])
      have el: "parse_elements (fuel_elements xs + k) (stringify_elements xs @ CHR '']'' # rest)
                  = Some (xs, rest)"
        using 4 False by blast
      have sk: "skip_ws (CHR ''['' # stringify_elements xs @ CHR '']'' # rest)
                  = CHR ''['' # stringify_elements xs @ CHR '']'' # rest"
        by (simp add: skip_ws_def is_json_ws_def)
      show ?thesis using nc el sk by simp
    qed
  qed
next
  case (5 ms)
  show ?case
  proof (intro allI)
    fix k rest
    show "parse_value (fuel_value (JObject ms) + k) (JSON_stringify (JObject ms) @ rest)
            = Some (JObject ms, rest)"
    proof (cases "ms = []")
      case True
      then show ?thesis by (simp add: skip_ws_def is_json_ws_def)
    next
      case False
      obtain t where t: "stringify_members ms = CHR 0x22 # t"
        using starts_value_members[OF False] by blast
      have nc: "take 1 (skip_ws (stringify_members ms @ CHR ''}'' # rest)) \<noteq> ''}''"
        by (simp add: t)
      have el: "parse_members (fuel_members ms + k) (stringify_members ms @ CHR ''}'' # rest)
                  = Some (ms, rest)"
        using 5 False by blast
      have sk: "skip_ws (CHR ''{'' # stringify_members ms @ CHR ''}'' # rest)
                  = CHR ''{'' # stringify_members ms @ CHR ''}'' # rest"
        by (simp add: skip_ws_def is_json_ws_def)
      show ?thesis using nc el sk by simp
    qed
  qed
next
  case 6
  show ?case by simp
next
  case (7 x)
  show ?case
  proof (intro impI allI)
    fix k rest
    have v: "parse_value (fuel_value x + k) (JSON_stringify x @ CHR '']'' # rest)
               = Some (x, CHR '']'' # rest)"
      using 7 by blast
    show "parse_elements (fuel_elements [x] + k) (stringify_elements [x] @ CHR '']'' # rest)
            = Some ([x], rest)"
      using v by simp
  qed
next
  case (8 x y ys)
  show ?case
  proof (intro impI allI)
    fix k rest
    have v: "parse_value (fuel_value x + (fuel_elements (y # ys) + k))
               (JSON_stringify x @ CHR '','' # stringify_elements (y # ys) @ CHR '']'' # rest)
               = Some (x, CHR '','' # stringify_elements (y # ys) @ CHR '']'' # rest)"
      using 8(1) by blast
    have e: "parse_elements (fuel_elements (y # ys) + (fuel_value x + k))
               (stringify_elements (y # ys) @ CHR '']'' # rest) = Some (y # ys, rest)"
      using 8(2) by blast
    have f: "fuel_elements (x # y # ys) + k = Suc (fuel_value x + (fuel_elements (y # ys) + k))"
      by simp
    have f2: "fuel_value x + (fuel_elements (y # ys) + k) = fuel_elements (y # ys) + (fuel_value x + k)"
      by simp
    show "parse_elements (fuel_elements (x # y # ys) + k)
            (stringify_elements (x # y # ys) @ CHR '']'' # rest) = Some (x # y # ys, rest)"
      unfolding f using v e unfolding f2[symmetric]
      by (simp del: fuel_value.simps fuel_elements.simps stringify_elements.simps(3)
               add: stringify_elements.simps(3)[of x y ys])
  qed
next
  case 9
  show ?case by simp
next
  case (10 k v)
  show ?case
  proof (intro impI allI)
    fix n rest
    obtain t where t: "QuoteJSONString k @ CHR '':'' # JSON_stringify v @ CHR ''}'' # rest = CHR 0x22 # t"
       "parse_chars t = Some (k, CHR '':'' # JSON_stringify v @ CHR ''}'' # rest)"
      using parse_chars_QuoteJSONString by blast
    have pv: "parse_value (fuel_value v + n) (JSON_stringify v @ CHR ''}'' # rest)
               = Some (v, CHR ''}'' # rest)"
      using 10 by blast
    show "parse_members (fuel_members [(k, v)] + n) (stringify_members [(k, v)] @ CHR ''}'' # rest)
            = Some ([(k, v)], rest)"
      using t pv by simp
  qed
next
  case (11 k v m ms)
  show ?case
  proof (intro impI allI)
    fix n rest
    let ?tail = "stringify_members (m # ms) @ CHR ''}'' # rest"
    obtain t where t: "QuoteJSONString k @ CHR '':'' # JSON_stringify v @ CHR '','' # ?tail = CHR 0x22 # t"
       "parse_chars t = Some (k, CHR '':'' # JSON_stringify v @ CHR '','' # ?tail)"
      using parse_chars_QuoteJSONString by blast
    have pv: "parse_value (fuel_value v + (fuel_members (m # ms) + n))
               (JSON_stringify v @ CHR '','' # ?tail) = Some (v, CHR '','' # ?tail)"
      using 11(1) by blast
    have pm: "parse_members (fuel_members (m # ms) + (fuel_value v + n)) ?tail = Some (m # ms, rest)"
      using 11(2) by blast
    have f: "fuel_members ((k, v) # m # ms) + n = Suc (fuel_value v + (fuel_members (m # ms) + n))"
      by simp
    have f2: "fuel_value v + (fuel_members (m # ms) + n) = fuel_members (m # ms) + (fuel_value v + n)"
      by simp
    have shape: "stringify_members ((k, v) # m # ms) @ CHR ''}'' # rest
                 = QuoteJSONString k @ CHR '':'' # JSON_stringify v @ CHR '','' # ?tail"
      by simp
    show "parse_members (fuel_members ((k, v) # m # ms) + n)
            (stringify_members ((k, v) # m # ms) @ CHR ''}'' # rest) = Some ((k, v) # m # ms, rest)"
      unfolding f shape t(1) using t(2) pv pm unfolding f2[symmetric]
      by (simp del: fuel_value.simps fuel_members.simps stringify_members.simps)
  qed
qed

lemma fuel_le_length:
  "fuel_value j \<le> length (JSON_stringify j)"
  "fuel_elements xs \<le> Suc (length (stringify_elements xs))"
  "fuel_members ms \<le> Suc (length (stringify_members ms))"
  by (induction j and xs and ms rule: JSON_stringify_stringify_elements_stringify_members.induct)
     (simp_all add: QuoteJSONString_def)

lemma JSON_parse_stringify: "JSON_parse (JSON_stringify j) = Some j"
proof -
  obtain k where k: "length (JSON_stringify j) = fuel_value j + k"
    using fuel_le_length(1)[of j] le_Suc_ex by blast
  have "parse_value (fuel_value j + k) (JSON_stringify j @ []) = Some (j, [])"
    using parse_roundtrip(1) by blast
  then show ?thesis by (simp add: JSON_parse_def k)
qed

lemma those_map_inverse:
  "(\<And>x. f (g x) = Some x) \<Longrightarrow> those (map (f \<circ> g) xs) = Some xs"
  by (induction xs) simp_all

lemma Citation_roundtrip: "Citation_of_js (js_of_Citation c) = Some c"
  by (cases c; cases "title c") (simp_all add: Citation_of_js_def js_of_Citation_def)

lemma DocumentSource_roundtrip: "DocumentSource_of_js (js_of_DocumentSource d) = Some d"
  by (cases d) (simp add: DocumentSource_of_js_def js_of_DocumentSource_def)

lemma Sources_roundtrip: "Sources_of_js (js_of_Sources src) = Some src"
  by (cases src; cases "sources_type src")
     (simp_all add: Sources_of_js_def js_of_Sources_def SourcesType_of_js_def js_of_SourcesType_def
        those_map_inverse Citation_roundtrip DocumentSource_roundtrip)

lemma Message_roundtrip: "Message_of_js (js_of_Message m) = Some m"
  by (cases m; cases "role m"; cases "sources m"; cases "feedback m"; cases "the (feedback m)")
     (simp_all add: Message_of_js_def js_of_Message_def Role_of_js_def js_of_Role_def
        Feedback_of_js_def js_of_Feedback_def js_optional_def Sources_roundtrip)

lemma messages_roundtrip: "messages_of_js (js_of_messages msgs) = Some msgs"
  by (simp add: messages_of_js_def js_of_messages_def those_map_inverse Message_roundtrip)

text \<open>
  C3. Writing a transcript to \<open>chatMessages\<close> and reading it back gives the transcript
  that was written, for every sequence of messages: the text \<open>JSON.stringify\<close> produces
  parses to the value it was produced from, and that value is the same messages, in the
  same order, with the same sources and feedback. So the transcript restored from the
  storage the page left behind is the transcript the page had.
\<close>

theorem transcript_roundtrip:
  "JSON_parse (JSON_stringify (js_of_messages msgs)) = Some (js_of_messages msgs)
   \<and> messages_of_js (js_of_messages msgs) = Some msgs
   \<and> Option.bind (JSON_parse (JSON_stringify (js_of_messages msgs))) messages_of_js = Some msgs
   \<and> restore (localStorage (persist s)) = Some (messages s)"
proof -
  have ne: "JSON_stringify (js_of_messages (messages s)) \<noteq> []"
    by (simp add: js_of_messages_def)
  show ?thesis
    using ne by (simp add: JSON_parse_stringify messages_roundtrip restore_def persist_def)
qed

theorem transcript_roundtrip_witness:
  "restore (localStorage (persist (emptyChatState\<lparr>messages :=
      [\<lparr>role = User, content = ''Hi'', sources = None, feedback = None\<rparr>,
       \<lparr>role = Assistant, content = answer web_answer,
        sources = response_sources web_answer, feedback = Some ThumbsUp\<rparr>]\<rparr>)))
     = Some [\<lparr>role = User, content = ''Hi'', sources = None, feedback = None\<rparr>,
             \<lparr>role = Assistant, content = answer web_answer,
              sources = response_sources web_answer, feedback = Some ThumbsUp\<rparr>]"
  using transcript_roundtrip
    [of "[]" "emptyChatState\<lparr>messages :=
      [\<lparr>role = User, content = ''Hi'', sources = None, feedback = None\<rparr>,
       \<lparr>role = Assistant, content = answer web_answer,
        sources = response_sources web_answer, feedback = Some ThumbsUp\<rparr>]\<rparr>"]
  by simp

end
